theory Spec2Isabelle
  imports Main
begin

section \<open>Data\<close>

text \<open>
  The service of \<open>main.py\<close> sits between two external collaborators: the table
  \<open>competitors\<close> of the record store and the chat-completion client. Strings are HOL
  strings, one character per code point (code points up to 255). Calls of the logger
  write to the log stream only and never change a result; they are left out.
\<close>

datatype json = JNull | JBool bool | JNum int | JStr string

text \<open>
  A row of the table \<open>competitors\<close>. The source reads the columns \<open>id\<close>,
  \<open>competitor_name\<close> and \<open>program_summary\<close>; \<open>select('*')\<close> and the response of an
  update carry whatever other columns the table has. A text column may hold SQL null,
  which the client hands to Python as \<open>None\<close>.
\<close>

record competitor =
  row_id :: int
  competitor_name :: "string option"
  program_summary :: "string option"
  other_columns :: "(string \<times> json) list"

text \<open>The pydantic model \<open>CompetitorResponse\<close> (lines 43 to 46).\<close>

record competitor_response =
  response_id :: int
  response_name :: string
  response_summary :: "string option"

text \<open>
  Exceptions. \<open>HTTPException\<close> carries status code and detail. \<open>IndexError\<close> is raised by
  \<open>xs[0]\<close> on an empty list, \<open>AttributeError\<close> by \<open>None.strip()\<close>, \<open>ValidationError\<close>
  by the constructor of \<open>CompetitorResponse\<close>; \<open>APIError\<close> and \<open>StoreError\<close> are whatever
  the completion client and the store client raise, with the text \<open>str(e)\<close> gives.
\<close>

datatype exn =
    HTTPException nat string
  | IndexError
  | AttributeError
  | ValidationError string
  | APIError string
  | StoreError string

text \<open>Calls issued to the external services, in the order they are made.\<close>

datatype call =
    Completion string "(string \<times> string) list"
  | Select_by_id int
  | Select_null_summary
  | Update_summary string int

fun is_completion :: "call \<Rightarrow> bool" where
  "is_completion (Completion m ms) = True"
| "is_completion c = False"

fun is_update :: "call \<Rightarrow> bool" where
  "is_update (Update_summary s i) = True"
| "is_update c = False"

text \<open>
  The state the handlers act on: the table and the calls made so far (oldest first).
\<close>

record world =
  competitors :: "competitor list"
  calls :: "call list"

text \<open>
  The behaviour of the collaborators, which the source does not fix, is a parameter:
  what the \<open>n\<close>-th completion call answers to a model and a list of (role, content)
  messages (an exception, or the contents of the returned choices, \<open>None\<close> for a choice
  without text), whether the \<open>n\<close>-th call of the store raises, and the text of
  pydantic's validation error.
\<close>

record env =
  chat_completions_create ::
    "nat \<Rightarrow> string \<Rightarrow> (string \<times> string) list \<Rightarrow> exn + string option list"
  store_raises :: "nat \<Rightarrow> string option"
  validation_text :: string

definition completions_made :: "world \<Rightarrow> nat" where
  "completions_made w = length (filter is_completion (calls w))"

definition store_calls_made :: "world \<Rightarrow> nat" where
  "store_calls_made w = length (filter (\<lambda>c. \<not> is_completion c) (calls w))"

definition updates_issued :: "world \<Rightarrow> call list" where
  "updates_issued w = filter is_update (calls w)"

section \<open>Python's string operations\<close>

text \<open>The characters \<open>str.isspace\<close> accepts, among the code points up to 255.\<close>

definition isspace :: "char \<Rightarrow> bool" where
  "isspace c \<longleftrightarrow> c \<in> set [CHR 0x09, CHR 0x0A, CHR 0x0B, CHR 0x0C, CHR 0x0D,
     CHR 0x1C, CHR 0x1D, CHR 0x1E, CHR 0x1F, CHR 0x20, CHR 0x85, CHR 0xA0]"

definition strip :: "string \<Rightarrow> string" where
  "strip s = rev (dropWhile isspace (rev (dropWhile isspace s)))"

fun show_nat :: "nat \<Rightarrow> string" where
  "show_nat n =
     (if n < 10 then [''0123456789'' ! n]
      else show_nat (n div 10) @ [''0123456789'' ! (n mod 10)])"

declare show_nat.simps [simp del]

text \<open>\<open>{x}\<close> in an f-string, for a value that is a string or \<open>None\<close>.\<close>

fun format_str :: "string option \<Rightarrow> string" where
  "format_str None = ''None''"
| "format_str (Some s) = s"

text \<open>
  \<open>str(e)\<close>: starlette's \<open>HTTPException\<close> prints status code and detail, the built-in
  errors print CPython's message, the others the text they carry.
\<close>

fun str_exn :: "exn \<Rightarrow> string" where
  "str_exn (HTTPException c d) = show_nat c @ '': '' @ d"
| "str_exn IndexError = ''list index out of range''"
| "str_exn AttributeError =
     [CHR 0x27] @ ''NoneType'' @ [CHR 0x27] @ '' object has no attribute ''
       @ [CHR 0x27] @ ''strip'' @ [CHR 0x27]"
| "str_exn (ValidationError m) = m"
| "str_exn (APIError m) = m"
| "str_exn (StoreError m) = m"

section \<open>The record store\<close>

text \<open>
  Each \<open>execute()\<close> is logged, raises if the store is set to fail on that call (leaving
  the table as it is), and otherwise returns \<open>response.data\<close>.
\<close>

definition execute ::
  "env \<Rightarrow> call \<Rightarrow> world \<Rightarrow> (world \<Rightarrow> 'a \<times> world) \<Rightarrow> (exn + 'a) \<times> world" where
  "execute E c w run =
     (let w1 = w\<lparr>calls := calls w @ [c]\<rparr> in
      case store_raises E (store_calls_made w) of
        Some m \<Rightarrow> (Inl (StoreError m), w1)
      | None \<Rightarrow> (let (d, w2) = run w1 in (Inr d, w2)))"

text \<open>\<open>supabase.table('competitors').select('*').eq('id', competitor_id).execute()\<close>\<close>

definition select_by_id :: "env \<Rightarrow> int \<Rightarrow> world \<Rightarrow> (exn + competitor list) \<times> world" where
  "select_by_id E i w =
     execute E (Select_by_id i) w
       (\<lambda>w1. (filter (\<lambda>r. row_id r = i) (competitors w1), w1))"

text \<open>
  \<open>supabase.table('competitors').select('id, competitor_name')
     .is_('program_summary', 'null').execute()\<close>
\<close>

definition select_null_summary ::
  "env \<Rightarrow> world \<Rightarrow> (exn + (int \<times> string option) list) \<times> world" where
  "select_null_summary E w =
     execute E Select_null_summary w
       (\<lambda>w1. (map (\<lambda>r. (row_id r, competitor_name r))
                 (filter (\<lambda>r. program_summary r = None) (competitors w1)), w1))"

text \<open>
  \<open>supabase.table('competitors').update({'program_summary': summary})
     .eq('id', competitor_id).execute()\<close>: the rows that match get the new value of the one
  column, and the response holds the rows as updated.
\<close>

definition set_summary :: "string \<Rightarrow> int \<Rightarrow> competitor \<Rightarrow> competitor" where
  "set_summary s i r = (if row_id r = i then r\<lparr>program_summary := Some s\<rparr> else r)"

definition update_summary ::
  "env \<Rightarrow> string \<Rightarrow> int \<Rightarrow> world \<Rightarrow> (exn + competitor list) \<times> world" where
  "update_summary E s i w =
     execute E (Update_summary s i) w
       (\<lambda>w1. let t = map (set_summary s i) (competitors w1)
             in (filter (\<lambda>r. row_id r = i) t, w1\<lparr>competitors := t\<rparr>))"

section \<open>The completion client\<close>

text \<open>\<open>client.chat.completions.create(model=..., messages=[...])\<close>\<close>

definition create ::
  "env \<Rightarrow> string \<Rightarrow> (string \<times> string) list \<Rightarrow> world
     \<Rightarrow> (exn + string option list) \<times> world" where
  "create E m ms w =
     (chat_completions_create E (completions_made w) m ms,
      w\<lparr>calls := calls w @ [Completion m ms]\<rparr>)"

section \<open>The functions of main.py\<close>

definition prompt :: "string option \<Rightarrow> string" where
  "prompt name =
     ''Research and provide a concise summary of '' @ format_str name
       @ [CHR 0x27] @ ''s loyalty program.'' @ [CHR 0x0A]
     @ ''    Focus on key features like:'' @ [CHR 0x0A]
     @ ''    - Program name'' @ [CHR 0x0A]
     @ ''    - How points are earned'' @ [CHR 0x0A]
     @ ''    - Main benefits and rewards'' @ [CHR 0x0A]
     @ ''    - Special features'' @ [CHR 0x0A]
     @ ''    '' @ [CHR 0x0A]
     @ ''    Provide this with 3 key bullet points and then a single, well-formatted paragraph.''"

definition messages :: "string option \<Rightarrow> (string \<times> string) list" where
  "messages name =
     [(''system'', ''You are a helpful assistant that researches loyalty programs.''),
      (''user'', prompt name)]"

text \<open>
  \<open>get_loyalty_program_summary\<close> (lines 48 to 70): one completion call, then
  \<open>response.choices[0].message.content.strip()\<close>.
\<close>

definition get_loyalty_program_summary ::
  "env \<Rightarrow> string option \<Rightarrow> world \<Rightarrow> (exn + string) \<times> world" where
  "get_loyalty_program_summary E name w =
     (case create E ''gpt-4'' (messages name) w of
        (Inl e, w1) \<Rightarrow> (Inl e, w1)
      | (Inr choices, w1) \<Rightarrow>
          (case choices of
             [] \<Rightarrow> (Inl IndexError, w1)
           | content # _ \<Rightarrow>
               (case content of
                  None \<Rightarrow> (Inl AttributeError, w1)
                | Some text \<Rightarrow> (Inr (strip text), w1))))"

text \<open>
  \<open>CompetitorResponse(**updated_competitor)\<close>: \<open>competitor_name\<close> is declared \<open>str\<close>, so
  a row whose name is null is rejected; columns the model does not declare are ignored.
\<close>

definition CompetitorResponse :: "env \<Rightarrow> competitor \<Rightarrow> exn + competitor_response" where
  "CompetitorResponse E r =
     (case competitor_name r of
        None \<Rightarrow> Inl (ValidationError (validation_text E))
      | Some n \<Rightarrow>
          Inr \<lparr>response_id = row_id r, response_name = n,
               response_summary = program_summary r\<rparr>)"

text \<open>\<open>update_competitor_summary\<close> (lines 72 to 86).\<close>

definition update_competitor_summary ::
  "env \<Rightarrow> int \<Rightarrow> string option \<Rightarrow> world \<Rightarrow> (exn + competitor_response) \<times> world" where
  "update_competitor_summary E competitor_id name w =
     (case get_loyalty_program_summary E name w of
        (Inl e, w1) \<Rightarrow> (Inl e, w1)
      | (Inr summary, w1) \<Rightarrow>
          (case update_summary E summary competitor_id w1 of
             (Inl e, w2) \<Rightarrow> (Inl e, w2)
           | (Inr data, w2) \<Rightarrow>
               (case data of
                  [] \<Rightarrow> (Inl IndexError, w2)
                | updated_competitor # _ \<Rightarrow>
                    (case CompetitorResponse E updated_competitor of
                       Inl e \<Rightarrow> (Inl e, w2)
                     | Inr c \<Rightarrow> (Inr c, w2)))))"

text \<open>
  What a handler answers: a JSON body with status 200 when it returns, or the status
  code and detail of the \<open>HTTPException\<close> it raises.
\<close>

datatype body =
    Status string
  | Competitor competitor_response
  | Batch string nat "competitor_response list"

datatype http_response = OK body | Error nat string

fun status_code :: "http_response \<Rightarrow> nat" where
  "status_code (OK b) = 200"
| "status_code (Error c d) = c"

text \<open>\<open>root\<close> (lines 88 to 91).\<close>

definition root :: "world \<Rightarrow> http_response \<times> world" where
  "root w = (OK (Status ''API is running''), w)"

text \<open>
  \<open>update_single_competitor\<close> (lines 93 to 115). The body of the \<open>try\<close> either returns
  the updated record or raises; \<open>except Exception\<close> then turns whatever was raised,
  the \<open>HTTPException\<close> of line 106 included, into status 500 with \<open>str(e)\<close> as detail.
\<close>

definition update_single_try ::
  "env \<Rightarrow> int \<Rightarrow> world \<Rightarrow> (exn + competitor_response) \<times> world" where
  "update_single_try E competitor_id w =
     (case select_by_id E competitor_id w of
        (Inl e, w1) \<Rightarrow> (Inl e, w1)
      | (Inr data, w1) \<Rightarrow>
          (case data of
             [] \<Rightarrow> (Inl (HTTPException 404 ''Competitor not found''), w1)
           | competitor # _ \<Rightarrow>
               update_competitor_summary E competitor_id (competitor_name competitor) w1))"

definition update_single_competitor :: "env \<Rightarrow> int \<Rightarrow> world \<Rightarrow> http_response \<times> world" where
  "update_single_competitor E competitor_id w =
     (case update_single_try E competitor_id w of
        (Inr updated_competitor, w1) \<Rightarrow> (OK (Competitor updated_competitor), w1)
      | (Inl e, w1) \<Rightarrow> (Error 500 (str_exn e), w1))"

text \<open>
  \<open>update_all_competitors\<close> (lines 117 to 149). \<open>update_loop\<close> is the \<open>for\<close> loop of
  lines 133 to 139 with the list \<open>updated_competitors\<close> as accumulator: a row whose update
  raises is skipped.
\<close>

fun update_loop ::
  "env \<Rightarrow> (int \<times> string option) list \<Rightarrow> competitor_response list \<Rightarrow> world
     \<Rightarrow> competitor_response list \<times> world" where
  "update_loop E [] updated_competitors w = (updated_competitors, w)"
| "update_loop E (competitor # rest) updated_competitors w =
     (case update_competitor_summary E (fst competitor) (snd competitor) w of
        (Inr updated, w1) \<Rightarrow> update_loop E rest (updated_competitors @ [updated]) w1
      | (Inl e, w1) \<Rightarrow> update_loop E rest updated_competitors w1)"

definition update_all_competitors :: "env \<Rightarrow> world \<Rightarrow> http_response \<times> world" where
  "update_all_competitors E w =
     (case select_null_summary E w of
        (Inl e, w1) \<Rightarrow> (Error 500 (str_exn e), w1)
      | (Inr data, w1) \<Rightarrow>
          (if data = [] then (OK (Status ''No competitors found needing updates''), w1)
           else (let (updated_competitors, w2) = update_loop E data [] w1
                 in (OK (Batch ''success'' (length updated_competitors) updated_competitors),
                     w2))))"

section \<open>Notions the properties are stated with\<close>

text \<open>
  What each row of the batch comes to, in the order of the loop: the result of
  \<open>update_competitor_summary\<close> for the row, run in the state the rows before it left.
\<close>

fun row_outcomes ::
  "env \<Rightarrow> (int \<times> string option) list \<Rightarrow> world \<Rightarrow> (exn + competitor_response) list" where
  "row_outcomes E [] w = []"
| "row_outcomes E (competitor # rest) w =
     (case update_competitor_summary E (fst competitor) (snd competitor) w of
        (outcome, w1) \<Rightarrow> outcome # row_outcomes E rest w1)"

fun successes :: "('e + 'a) list \<Rightarrow> 'a list" where
  "successes [] = []"
| "successes (Inr x # os) = x # successes os"
| "successes (Inl e # os) = successes os"


text \<open>Two versions of a row that agree on every column but \<open>program_summary\<close>.\<close>

definition same_but_summary :: "competitor \<Rightarrow> competitor \<Rightarrow> bool" where
  "same_but_summary r r' \<longleftrightarrow>
     row_id r' = row_id r \<and> competitor_name r' = competitor_name r
     \<and> other_columns r' = other_columns r"

definition untouched_unless :: "int \<Rightarrow> competitor \<Rightarrow> competitor \<Rightarrow> bool" where
  "untouched_unless i r r' \<longleftrightarrow> row_id r = i \<or> r' = r"

text \<open>A row keeps its id, and its summary once it has one.\<close>

definition keeps_summary :: "competitor \<Rightarrow> competitor \<Rightarrow> bool" where
  "keeps_summary r r' \<longleftrightarrow>
     row_id r' = row_id r \<and> (program_summary r = None \<or> program_summary r' \<noteq> None)"

text \<open>
  The calls one row of the batch gives rise to: its completion call, followed by its
  update when the summary was generated.
\<close>

definition row_calls :: "int \<times> string option \<Rightarrow> call list \<Rightarrow> bool" where
  "row_calls c cs \<longleftrightarrow>
     (case cs of
        [Completion m ms] \<Rightarrow> m = ''gpt-4'' \<and> ms = messages (snd c)
      | [Completion m ms, Update_summary s i] \<Rightarrow>
          m = ''gpt-4'' \<and> ms = messages (snd c) \<and> i = fst c
      | _ \<Rightarrow> False)"

subsection \<open>Example inputs\<close>

definition example_table :: "competitor list" where
  "example_table =
     [\<lparr>row_id = 1, competitor_name = Some ''Acme'', program_summary = None,
        other_columns = [(''country'', JStr ''CA'')]\<rparr>,
      \<lparr>row_id = 2, competitor_name = Some ''Globex'', program_summary = Some ''Points.'',
        other_columns = []\<rparr>,
      \<lparr>row_id = 3, competitor_name = Some ''Initech'', program_summary = None,
        other_columns = []\<rparr>,
      \<lparr>row_id = 4, competitor_name = Some ''Hooli'', program_summary = None,
        other_columns = [(''active'', JBool True)]\<rparr>]"

definition example_world :: world where
  "example_world = \<lparr>competitors = example_table, calls = []\<rparr>"

definition full_table :: "competitor list" where
  "full_table =
     [\<lparr>row_id = 2, competitor_name = Some ''Globex'', program_summary = Some ''Points.'',
        other_columns = []\<rparr>]"

definition full_world :: world where
  "full_world = \<lparr>competitors = full_table, calls = []\<rparr>"

text \<open>Both services answer.\<close>

definition healthy_env :: env where
  "healthy_env =
     \<lparr>chat_completions_create = (\<lambda>n m ms. Inr [Some ''  Earn points.  '']),
      store_raises = (\<lambda>n. None),
      validation_text = ''1 validation error for CompetitorResponse''\<rparr>"

text \<open>The completion client raises on every call.\<close>

definition no_completion_env :: env where
  "no_completion_env =
     \<lparr>chat_completions_create = (\<lambda>n m ms. Inl (APIError ''Request timed out.'')),
      store_raises = (\<lambda>n. None),
      validation_text = ''1 validation error for CompetitorResponse''\<rparr>"

text \<open>The completion client raises on its second call only.\<close>

definition second_completion_fails_env :: env where
  "second_completion_fails_env =
     \<lparr>chat_completions_create =
        (\<lambda>n m ms. if n = 1 then Inl (APIError ''Request timed out.'')
                   else Inr [Some ''  Earn points.  '']),
      store_raises = (\<lambda>n. None),
      validation_text = ''1 validation error for CompetitorResponse''\<rparr>"

text \<open>The store raises on its second call only.\<close>

definition second_store_call_fails_env :: env where
  "second_store_call_fails_env =
     \<lparr>chat_completions_create = (\<lambda>n m ms. Inr [Some ''  Earn points.  '']),
      store_raises = (\<lambda>n. if n = 1 then Some ''connection reset'' else None),
      validation_text = ''1 validation error for CompetitorResponse''\<rparr>"

text \<open>The completion client raises when asked about Acme, and only then.\<close>

definition acme_fails_env :: env where
  "acme_fails_env =
     \<lparr>chat_completions_create =
        (\<lambda>n m ms. if ms = messages (Some ''Acme'') then Inl (APIError ''Request timed out.'')
                   else Inr [Some ''  Earn points.  '']),
      store_raises = (\<lambda>n. None),
      validation_text = ''1 validation error for CompetitorResponse''\<rparr>"


section \<open>Properties\<close>

subsection \<open>Stripping\<close>

lemma drop_trailing:
  "xs = rev (dropWhile P (rev xs)) @ rev (takeWhile P (rev xs))"
  by (metis rev_append rev_rev_ident takeWhile_dropWhile_id)

lemma strip_middle:
  "dropWhile isspace s = strip s @ rev (takeWhile isspace (rev (dropWhile isspace s)))"
  unfolding strip_def by (rule drop_trailing)

lemma strip_decomposition:
  "\<exists>a b. s = a @ strip s @ b \<and> (\<forall>c\<in>set a. isspace c) \<and> (\<forall>c\<in>set b. isspace c)"
proof -
  let ?a = "takeWhile isspace s"
  let ?b = "rev (takeWhile isspace (rev (dropWhile isspace s)))"
  have "s = ?a @ dropWhile isspace s" by simp
  with strip_middle [of s] have "s = ?a @ strip s @ ?b" by simp
  moreover have "\<forall>c\<in>set ?a. isspace c" by (auto dest: set_takeWhileD)
  moreover have "\<forall>c\<in>set ?b. isspace c" by (auto dest: set_takeWhileD)
  ultimately show ?thesis by blast
qed

lemma strip_last: "strip s \<noteq> [] \<Longrightarrow> \<not> isspace (last (strip s))"
  unfolding strip_def by (simp add: last_rev hd_dropWhile)

lemma strip_hd:
  assumes "strip s \<noteq> []"
  shows "\<not> isspace (hd (strip s))"
proof -
  let ?m = "dropWhile isspace s"
  from assms strip_middle [of s] have "hd ?m = hd (strip s)" by (metis hd_append2)
  moreover from assms strip_middle [of s] have "?m \<noteq> []" by (metis append_is_Nil_conv)
  ultimately show ?thesis by (metis hd_dropWhile)
qed

subsection \<open>The calls counted\<close>

lemma store_calls_made_completion [simp]:
  "store_calls_made (w\<lparr>calls := calls w @ [Completion m ms]\<rparr>) = store_calls_made w"
  by (simp add: store_calls_made_def)

subsection \<open>The summary generator\<close>

lemma get_summary_world:
  "snd (get_loyalty_program_summary E name w)
     = w\<lparr>calls := calls w @ [Completion ''gpt-4'' (messages name)]\<rparr>"
  by (simp add: get_loyalty_program_summary_def create_def
      split: sum.splits list.splits option.splits)

lemma get_summary_result:
  "fst (get_loyalty_program_summary E name w) =
     (case chat_completions_create E (completions_made w) ''gpt-4'' (messages name) of
        Inl e \<Rightarrow> Inl e
      | Inr [] \<Rightarrow> Inl IndexError
      | Inr (None # rest) \<Rightarrow> Inl AttributeError
      | Inr (Some text # rest) \<Rightarrow> Inr (strip text))"
  by (simp add: get_loyalty_program_summary_def create_def
      split: sum.splits list.splits option.splits)

text \<open>
  C4. The summary generator makes exactly one completion call and never a second one.
  When the call returns choices and the first one has text content, the result is that
  content with its leading and trailing whitespace removed: the content is the result
  between two runs of whitespace, and the result neither starts nor ends with a
  whitespace character. When the call raises, the same exception reaches the caller;
  when it returns no choices, the generator fails with \<open>IndexError\<close>. This holds for
  every competitor name, the non-empty ones included.
\<close>

theorem summary_is_stripped_first_choice:
  "(\<forall>text rest.
      chat_completions_create E (completions_made w) ''gpt-4'' (messages name)
        = Inr (Some text # rest) \<longrightarrow>
      (\<exists>a b. fst (get_loyalty_program_summary E name w) = Inr (strip text)
         \<and> text = a @ strip text @ b
         \<and> (\<forall>c\<in>set a. isspace c) \<and> (\<forall>c\<in>set b. isspace c)
         \<and> (strip text \<noteq> [] \<longrightarrow>
              \<not> isspace (hd (strip text)) \<and> \<not> isspace (last (strip text)))))
   \<and> (\<forall>e. chat_completions_create E (completions_made w) ''gpt-4'' (messages name) = Inl e
          \<longrightarrow> fst (get_loyalty_program_summary E name w) = Inl e)
   \<and> (chat_completions_create E (completions_made w) ''gpt-4'' (messages name) = Inr []
          \<longrightarrow> fst (get_loyalty_program_summary E name w) = Inl IndexError)
   \<and> calls (snd (get_loyalty_program_summary E name w))
        = calls w @ [Completion ''gpt-4'' (messages name)]"
proof (intro conjI allI impI)
  fix t rest
  assume a: "chat_completions_create E (completions_made w) ''gpt-4'' (messages name)
        = Inr (Some t # rest)"
  then have r: "fst (get_loyalty_program_summary E name w) = Inr (strip t)"
    by (simp add: get_summary_result)
  from strip_decomposition [of t] obtain a b where
    "t = a @ strip t @ b" "\<forall>c\<in>set a. isspace c" "\<forall>c\<in>set b. isspace c"
    by blast
  with r strip_hd [of t] strip_last [of t]
  show "\<exists>a b. fst (get_loyalty_program_summary E name w) = Inr (strip t)
         \<and> t = a @ strip t @ b
         \<and> (\<forall>c\<in>set a. isspace c) \<and> (\<forall>c\<in>set b. isspace c)
         \<and> (strip t \<noteq> [] \<longrightarrow>
              \<not> isspace (hd (strip t)) \<and> \<not> isspace (last (strip t)))"
    by blast
next
  fix e
  assume "chat_completions_create E (completions_made w) ''gpt-4'' (messages name) = Inl e"
  then show "fst (get_loyalty_program_summary E name w) = Inl e"
    by (simp add: get_summary_result)
next
  assume "chat_completions_create E (completions_made w) ''gpt-4'' (messages name) = Inr []"
  then show "fst (get_loyalty_program_summary E name w) = Inl IndexError"
    by (simp add: get_summary_result)
next
  show "calls (snd (get_loyalty_program_summary E name w))
        = calls w @ [Completion ''gpt-4'' (messages name)]"
    by (simp add: get_summary_world)
qed

theorem summary_is_stripped_first_choice_witness:
  "fst (get_loyalty_program_summary healthy_env (Some ''Acme'') example_world)
     = Inr ''Earn points.''
   \<and> fst (get_loyalty_program_summary no_completion_env (Some ''Acme'') example_world)
     = Inl (APIError ''Request timed out.'')
   \<and> calls (snd (get_loyalty_program_summary no_completion_env (Some ''Acme'') example_world))
     = [Completion ''gpt-4'' (messages (Some ''Acme''))]"
  using summary_is_stripped_first_choice [of healthy_env example_world "Some ''Acme''"]
    summary_is_stripped_first_choice [of no_completion_env example_world "Some ''Acme''"]
  by (simp add: healthy_env_def no_completion_env_def example_world_def strip_def isspace_def)

subsection \<open>The health check\<close>

text \<open>
  C10. \<open>GET /\<close> answers \<open>{status: "API is running"}\<close> in every state of the table and
  after any calls made before; it takes no parameter for the behaviour of the external
  services, makes no call and leaves the state as it is.
\<close>

theorem root_always_running:
  "fst (root w) = OK (Status ''API is running'') \<and> snd (root w) = w"
  by (simp add: root_def)

subsection \<open>The store calls and the orchestrator\<close>

lemma completions_made_store_call [simp]:
  "\<not> is_completion c \<Longrightarrow>
   completions_made (w\<lparr>calls := calls w @ [c]\<rparr>) = completions_made w"
  by (simp add: completions_made_def)

lemma store_calls_made_store_call [simp]:
  "\<not> is_completion c \<Longrightarrow>
   store_calls_made (w\<lparr>calls := calls w @ [c]\<rparr>) = Suc (store_calls_made w)"
  by (simp add: store_calls_made_def)

lemma select_by_id_raises:
  "store_raises E (store_calls_made w) = Some m \<Longrightarrow>
   select_by_id E i w = (Inl (StoreError m), w\<lparr>calls := calls w @ [Select_by_id i]\<rparr>)"
  by (simp add: select_by_id_def execute_def)

lemma select_by_id_runs:
  "store_raises E (store_calls_made w) = None \<Longrightarrow>
   select_by_id E i w =
     (Inr (filter (\<lambda>r. row_id r = i) (competitors w)),
      w\<lparr>calls := calls w @ [Select_by_id i]\<rparr>)"
  by (simp add: select_by_id_def execute_def)

lemma select_null_summary_raises:
  "store_raises E (store_calls_made w) = Some m \<Longrightarrow>
   select_null_summary E w
     = (Inl (StoreError m), w\<lparr>calls := calls w @ [Select_null_summary]\<rparr>)"
  by (simp add: select_null_summary_def execute_def)

lemma select_null_summary_runs:
  "store_raises E (store_calls_made w) = None \<Longrightarrow>
   select_null_summary E w =
     (Inr (map (\<lambda>r. (row_id r, competitor_name r))
            (filter (\<lambda>r. program_summary r = None) (competitors w))),
      w\<lparr>calls := calls w @ [Select_null_summary]\<rparr>)"
  by (simp add: select_null_summary_def execute_def)

lemma update_summary_raises:
  "store_raises E (store_calls_made w) = Some m \<Longrightarrow>
   update_summary E s i w = (Inl (StoreError m), w\<lparr>calls := calls w @ [Update_summary s i]\<rparr>)"
  by (simp add: update_summary_def execute_def)

lemma update_summary_runs:
  "store_raises E (store_calls_made w) = None \<Longrightarrow>
   update_summary E s i w =
     (Inr (filter (\<lambda>r. row_id r = i) (map (set_summary s i) (competitors w))),
      w\<lparr>calls := calls w @ [Update_summary s i],
        competitors := map (set_summary s i) (competitors w)\<rparr>)"
  by (simp add: update_summary_def execute_def Let_def)

lemma set_summary_no_match:
  "\<forall>r\<in>set t. row_id r \<noteq> i \<Longrightarrow> map (set_summary s i) t = t"
  by (induction t) (simp_all add: set_summary_def)

lemma updated_rows_empty:
  "filter (\<lambda>r. row_id r = i) (map (set_summary s i) t) = [] \<longleftrightarrow> (\<forall>r\<in>set t. row_id r \<noteq> i)"
  by (induction t) (auto simp: set_summary_def)

lemma update_competitor_summary_cases:
  obtains
    (generation_failed) e where
      "fst (get_loyalty_program_summary E name w) = Inl e"
      "update_competitor_summary E i name w =
         (Inl e, w\<lparr>calls := calls w @ [Completion ''gpt-4'' (messages name)]\<rparr>)"
  | (store_raised) s m where
      "fst (get_loyalty_program_summary E name w) = Inr s"
      "store_raises E (store_calls_made w) = Some m"
      "update_competitor_summary E i name w =
         (Inl (StoreError m),
          w\<lparr>calls := calls w @ [Completion ''gpt-4'' (messages name), Update_summary s i]\<rparr>)"
  | (no_row) s where
      "fst (get_loyalty_program_summary E name w) = Inr s"
      "store_raises E (store_calls_made w) = None"
      "\<forall>r\<in>set (competitors w). row_id r \<noteq> i"
      "update_competitor_summary E i name w =
         (Inl IndexError,
          w\<lparr>calls := calls w @ [Completion ''gpt-4'' (messages name), Update_summary s i]\<rparr>)"
  | (written) s r where
      "fst (get_loyalty_program_summary E name w) = Inr s"
      "store_raises E (store_calls_made w) = None"
      "r \<in> set (competitors w)" "row_id r = i"
      "update_competitor_summary E i name w =
         (CompetitorResponse E (r\<lparr>program_summary := Some s\<rparr>),
          w\<lparr>calls := calls w @ [Completion ''gpt-4'' (messages name), Update_summary s i],
            competitors := map (set_summary s i) (competitors w)\<rparr>)"
proof (cases "fst (get_loyalty_program_summary E name w)")
  case (Inl e)
  then have "get_loyalty_program_summary E name w
      = (Inl e, w\<lparr>calls := calls w @ [Completion ''gpt-4'' (messages name)]\<rparr>)"
    by (metis get_summary_world prod.collapse)
  then have "update_competitor_summary E i name w =
         (Inl e, w\<lparr>calls := calls w @ [Completion ''gpt-4'' (messages name)]\<rparr>)"
    by (simp add: update_competitor_summary_def)
  with Inl show ?thesis by (rule generation_failed)
next
  case (Inr s)
  let ?w1 = "w\<lparr>calls := calls w @ [Completion ''gpt-4'' (messages name)]\<rparr>"
  from Inr have g: "get_loyalty_program_summary E name w = (Inr s, ?w1)"
    by (metis get_summary_world prod.collapse)
  show ?thesis
  proof (cases "store_raises E (store_calls_made w)")
    case (Some m)
    then have "update_summary E s i ?w1
        = (Inl (StoreError m), ?w1\<lparr>calls := calls ?w1 @ [Update_summary s i]\<rparr>)"
      by (simp add: update_summary_raises)
    with g have "update_competitor_summary E i name w =
         (Inl (StoreError m),
          w\<lparr>calls := calls w @ [Completion ''gpt-4'' (messages name), Update_summary s i]\<rparr>)"
      by (simp add: update_competitor_summary_def)
    with Inr Some show ?thesis by (rule store_raised)
  next
    case None
    let ?t = "map (set_summary s i) (competitors w)"
    let ?d = "filter (\<lambda>r. row_id r = i) ?t"
    from None have u: "update_summary E s i ?w1
        = (Inr ?d, ?w1\<lparr>calls := calls ?w1 @ [Update_summary s i], competitors := ?t\<rparr>)"
      using update_summary_runs [of E ?w1 s i] by simp
    show ?thesis
    proof (cases ?d)
      case Nil
      then have nomatch: "\<forall>r\<in>set (competitors w). row_id r \<noteq> i"
        by (simp only: updated_rows_empty)
      then have "?t = competitors w" by (rule set_summary_no_match)
      with g u Nil have "update_competitor_summary E i name w =
         (Inl IndexError,
          w\<lparr>calls := calls w @ [Completion ''gpt-4'' (messages name), Update_summary s i]\<rparr>)"
        by (simp add: update_competitor_summary_def)
      with Inr None nomatch show ?thesis by (rule no_row)
    next
      case (Cons r' rest)
      then have "r' \<in> set ?d" by simp
      then obtain r where r: "r \<in> set (competitors w)" "row_id r = i"
          "r' = r\<lparr>program_summary := Some s\<rparr>"
        by (auto simp: set_summary_def split: if_splits)
      from g u Cons r(3) have "update_competitor_summary E i name w =
         (CompetitorResponse E (r\<lparr>program_summary := Some s\<rparr>),
          w\<lparr>calls := calls w @ [Completion ''gpt-4'' (messages name), Update_summary s i],
            competitors := ?t\<rparr>)"
        by (simp add: update_competitor_summary_def split: sum.splits)
      with Inr None r(1,2) show ?thesis by (rule written)
    qed
  qed
qed

subsection \<open>The single-item endpoint\<close>

lemma update_single_unknown_id:
  assumes "store_raises E (store_calls_made w) = None"
    and "\<forall>r\<in>set (competitors w). row_id r \<noteq> i"
  shows "update_single_competitor E i w =
     (Error 500 ''404: Competitor not found'', w\<lparr>calls := calls w @ [Select_by_id i]\<rparr>)"
proof -
  from assms(2) have "filter (\<lambda>r. row_id r = i) (competitors w) = []"
    by (simp add: filter_empty_conv)
  with assms(1) have "select_by_id E i w = (Inr [], w\<lparr>calls := calls w @ [Select_by_id i]\<rparr>)"
    by (simp add: select_by_id_runs)
  then show ?thesis
    by (simp add: update_single_competitor_def update_single_try_def show_nat.simps)
qed

text \<open>
  C1. For an id that no row of the table has, with the store answering the read,
  \<open>POST /update-single/{id}\<close> makes no completion call, but the status it answers is
  500 and not 404: the \<open>HTTPException\<close> of line 106 is raised inside the \<open>try\<close> and
  caught by \<open>except Exception\<close> of line 113, which raises the 500. Evaluated for id
  99 on the example table.
\<close>

theorem unknown_id_answered_500:
  "update_single_competitor healthy_env 99 example_world =
     (Error 500 ''404: Competitor not found'',
      \<lparr>competitors = example_table, calls = [Select_by_id 99]\<rparr>)
   \<and> status_code (fst (update_single_competitor healthy_env 99 example_world)) \<noteq> 404
   \<and> completions_made (snd (update_single_competitor healthy_env 99 example_world)) = 0"
proof -
  have "update_single_competitor healthy_env 99 example_world =
     (Error 500 ''404: Competitor not found'',
      example_world\<lparr>calls := calls example_world @ [Select_by_id 99]\<rparr>)"
    by (rule update_single_unknown_id)
      (simp_all add: healthy_env_def example_world_def example_table_def)
  then show ?thesis
    by (simp add: example_world_def completions_made_def)
qed

text \<open>
  C2. Let some row of the table have the id, and let \<open>r\<close> be the first such row, the one
  the endpoint reads the name from. If the completion call of the request, the one for
  the name of \<open>r\<close>, fails, then \<open>POST /update-single/{id}\<close> answers 500, no update is
  issued to the store and the table, so also the stored summary of that id, is what it
  was before. Nothing is asked of what the client would answer to any other request.
\<close>

theorem completion_failure_leaves_store:
  assumes known: "filter (\<lambda>r. row_id r = i) (competitors w) = r # rs"
    and fails: "isl (chat_completions_create E (completions_made w) ''gpt-4''
                  (messages (competitor_name r)))"
  shows "status_code (fst (update_single_competitor E i w)) = 500
    \<and> updates_issued (snd (update_single_competitor E i w)) = updates_issued w
    \<and> competitors (snd (update_single_competitor E i w)) = competitors w"
proof (cases "store_raises E (store_calls_made w)")
  case (Some m)
  then show ?thesis
    by (simp add: update_single_competitor_def update_single_try_def select_by_id_raises
        updates_issued_def)
next
  case None
  let ?w1 = "w\<lparr>calls := calls w @ [Select_by_id i]\<rparr>"
  from None known have sel: "select_by_id E i w = (Inr (r # rs), ?w1)"
    by (simp add: select_by_id_runs)
  let ?n = "competitor_name r"
  from fails have "isl (chat_completions_create E (completions_made ?w1) ''gpt-4'' (messages ?n))"
    by simp
  then obtain e where g: "fst (get_loyalty_program_summary E ?n ?w1) = Inl e"
    by (auto simp: get_summary_result isl_def)
  have "update_competitor_summary E i ?n ?w1 =
          (Inl e, ?w1\<lparr>calls := calls ?w1 @ [Completion ''gpt-4'' (messages ?n)]\<rparr>)"
    using g by (cases rule: update_competitor_summary_cases [of E ?n ?w1 i]) simp_all
  with sel show ?thesis
    by (simp add: update_single_competitor_def update_single_try_def updates_issued_def)
qed

theorem completion_failure_leaves_store_witness:
  "status_code (fst (update_single_competitor acme_fails_env 1 example_world)) = 500
    \<and> updates_issued (snd (update_single_competitor acme_fails_env 1 example_world)) = []
    \<and> competitors (snd (update_single_competitor acme_fails_env 1 example_world))
        = example_table
    \<and> \<not> isl (chat_completions_create acme_fails_env 0 ''gpt-4'' [])"
proof -
  let ?r = "\<lparr>row_id = 1, competitor_name = Some ''Acme'', program_summary = None,
        other_columns = [(''country'', JStr ''CA'')]\<rparr>"
  have known: "filter (\<lambda>r. row_id r = 1) (competitors example_world) = ?r # []"
    by (simp add: example_world_def example_table_def)
  have fails: "isl (chat_completions_create acme_fails_env (completions_made example_world)
      ''gpt-4'' (messages (competitor_name ?r)))"
    by (simp add: acme_fails_env_def)
  have other: "\<not> isl (chat_completions_create acme_fails_env 0 ''gpt-4'' [])"
    by (simp add: acme_fails_env_def messages_def)
  from completion_failure_leaves_store [OF known fails] other show ?thesis
    by (simp add: updates_issued_def example_world_def)
qed

subsection \<open>The batch endpoint\<close>

text \<open>
  C5. If the listing of \<open>POST /update-all\<close> returns no row, the endpoint answers 200
  with the status "No competitors found needing updates"; the listing is the only call
  it makes, so there is no completion call and no update, and the table is unchanged.
\<close>

theorem nothing_to_update:
  assumes "fst (select_null_summary E w) = Inr []"
  shows "update_all_competitors E w =
           (OK (Status ''No competitors found needing updates''),
            w\<lparr>calls := calls w @ [Select_null_summary]\<rparr>)
    \<and> status_code (fst (update_all_competitors E w)) = 200
    \<and> completions_made (snd (update_all_competitors E w)) = completions_made w
    \<and> updates_issued (snd (update_all_competitors E w)) = updates_issued w
    \<and> competitors (snd (update_all_competitors E w)) = competitors w"
proof (cases "store_raises E (store_calls_made w)")
  case (Some m)
  with assms show ?thesis by (simp add: select_null_summary_raises)
next
  case None
  with assms have "select_null_summary E w
      = (Inr [], w\<lparr>calls := calls w @ [Select_null_summary]\<rparr>)"
    by (simp add: select_null_summary_runs)
  then show ?thesis
    by (simp add: update_all_competitors_def updates_issued_def)
qed

theorem nothing_to_update_witness:
  "fst (select_null_summary healthy_env full_world) = Inr []
   \<and> update_all_competitors healthy_env full_world =
       (OK (Status ''No competitors found needing updates''),
        \<lparr>competitors = full_table, calls = [Select_null_summary]\<rparr>)"
proof -
  have h: "fst (select_null_summary healthy_env full_world) = Inr []"
    by (simp add: select_null_summary_def execute_def healthy_env_def full_world_def
        full_table_def store_calls_made_def)
  from nothing_to_update [OF h] h show ?thesis
    by (simp add: full_world_def)
qed

subsection \<open>Evaluating the examples\<close>

lemmas run_defs =
  update_single_competitor_def update_single_try_def update_all_competitors_def
  update_competitor_summary_def get_loyalty_program_summary_def CompetitorResponse_def
  select_by_id_def select_null_summary_def update_summary_def set_summary_def
  execute_def create_def store_calls_made_def completions_made_def
  strip_def isspace_def Let_def

lemmas example_defs =
  example_world_def example_table_def full_world_def full_table_def
  healthy_env_def no_completion_env_def second_completion_fails_env_def
  second_store_call_fails_env_def

subsection \<open>Failures of the write\<close>

text \<open>
  C6. For every id and name, \<open>update_competitor_summary\<close> fails when no row of the table
  has the id (the update affects no rows) and when the store raises on the update; in the
  second case, if the summary was generated, the failure is the store's exception. When
  the single-item endpoint has found the row and \<open>update_competitor_summary\<close> fails with
  an exception \<open>e\<close>, the endpoint answers 500 with \<open>str(e)\<close> as detail.
\<close>

theorem store_write_failure_surfaces:
  "((\<forall>r\<in>set (competitors w). row_id r \<noteq> i) \<longrightarrow>
       isl (fst (update_competitor_summary E i name w)))
   \<and> (\<forall>m. store_raises E (store_calls_made w) = Some m \<longrightarrow>
       isl (fst (update_competitor_summary E i name w))
       \<and> (\<forall>s. fst (get_loyalty_program_summary E name w) = Inr s \<longrightarrow>
             fst (update_competitor_summary E i name w) = Inl (StoreError m)))
   \<and> (\<forall>r rs w1 e w2.
         select_by_id E i w = (Inr (r # rs), w1) \<longrightarrow>
         update_competitor_summary E i (competitor_name r) w1 = (Inl e, w2) \<longrightarrow>
         update_single_competitor E i w = (Error 500 (str_exn e), w2))"
proof (intro conjI allI impI)
  assume "\<forall>r\<in>set (competitors w). row_id r \<noteq> i"
  then show "isl (fst (update_competitor_summary E i name w))"
    by (cases rule: update_competitor_summary_cases [of E name w i]) auto
next
  fix m
  assume "store_raises E (store_calls_made w) = Some m"
  then show "isl (fst (update_competitor_summary E i name w))"
    by (cases rule: update_competitor_summary_cases [of E name w i]) auto
next
  fix m s
  assume "store_raises E (store_calls_made w) = Some m"
    and "fst (get_loyalty_program_summary E name w) = Inr s"
  then show "fst (update_competitor_summary E i name w) = Inl (StoreError m)"
    by (cases rule: update_competitor_summary_cases [of E name w i]) auto
next
  fix r rs w1 e w2
  assume "select_by_id E i w = (Inr (r # rs), w1)"
    and "update_competitor_summary E i (competitor_name r) w1 = (Inl e, w2)"
  then show "update_single_competitor E i w = (Error 500 (str_exn e), w2)"
    by (simp add: update_single_competitor_def update_single_try_def)
qed

theorem store_write_failure_surfaces_witness:
  "isl (fst (update_competitor_summary healthy_env 99 (Some ''Nobody'') example_world))
   \<and> fst (update_competitor_summary second_store_call_fails_env 1 (Some ''Acme'')
         (example_world\<lparr>calls := [Select_by_id 1]\<rparr>))
       = Inl (StoreError ''connection reset'')
   \<and> fst (update_single_competitor second_store_call_fails_env 1 example_world)
       = Error 500 ''connection reset''"
  using store_write_failure_surfaces [of example_world 99 healthy_env "Some ''Nobody''"]
    store_write_failure_surfaces [of "example_world\<lparr>calls := [Select_by_id 1]\<rparr>" 1
      second_store_call_fails_env "Some ''Acme''"]
    store_write_failure_surfaces [of example_world 1 second_store_call_fails_env "Some ''Acme''"]
  by (simp add: run_defs example_defs)

subsection \<open>What a write changes\<close>

lemma same_but_summary_refl [simp]: "same_but_summary r r"
  by (simp add: same_but_summary_def)

lemma same_but_summary_trans:
  "same_but_summary a b \<Longrightarrow> same_but_summary b c \<Longrightarrow> same_but_summary a c"
  by (simp add: same_but_summary_def)

lemma same_but_summary_table_refl [simp]: "list_all2 same_but_summary t t"
  by (simp add: list_all2_refl)

lemma same_but_summary_table_trans:
  "list_all2 same_but_summary t u \<Longrightarrow> list_all2 same_but_summary u v
   \<Longrightarrow> list_all2 same_but_summary t v"
  by (rule list_all2_trans [OF same_but_summary_trans])

lemma set_summary_same_but_summary:
  "list_all2 same_but_summary t (map (set_summary s i) t)"
  by (induction t) (simp_all add: same_but_summary_def set_summary_def)

lemma set_summary_untouched:
  "list_all2 (untouched_unless i) t (map (set_summary s i) t)"
  by (induction t) (simp_all add: untouched_unless_def set_summary_def)

lemma untouched_table_refl [simp]: "list_all2 (untouched_unless i) t t"
  by (simp add: list_all2_refl untouched_unless_def)

lemma at_most_one_match:
  "distinct (map f xs) \<Longrightarrow> length (filter (\<lambda>x. f x = a) xs) \<le> Suc 0"
proof (induction xs)
  case Nil
  then show ?case by simp
next
  case (Cons x xs)
  show ?case
  proof (cases "f x = a")
    case True
    with Cons.prems have "a \<notin> f ` set xs" by simp
    then have "\<forall>y\<in>set xs. f y \<noteq> a" by blast
    then have "filter (\<lambda>x. f x = a) xs = []" by (simp add: filter_empty_conv)
    with True show ?thesis by simp
  next
    case False
    with Cons show ?thesis by simp
  qed
qed

lemma changed_rows_match:
  "length (filter (\<lambda>(r, r'). r' \<noteq> r) (zip t (map (set_summary s i) t)))
     \<le> length (filter (\<lambda>r. row_id r = i) t)"
  by (induction t) (simp_all add: set_summary_def)

lemma orchestrator_table:
  "competitors (snd (update_competitor_summary E i name w)) = competitors w
   \<or> (\<exists>s. competitors (snd (update_competitor_summary E i name w))
          = map (set_summary s i) (competitors w))"
  by (cases rule: update_competitor_summary_cases [of E name w i]) auto

lemma orchestrator_same_but_summary:
  "list_all2 same_but_summary (competitors w)
     (competitors (snd (update_competitor_summary E i name w)))"
  using orchestrator_table [of E i name w]
  by (auto simp: set_summary_same_but_summary)

lemma update_loop_same_but_summary:
  "list_all2 same_but_summary (competitors w) (competitors (snd (update_loop E rows acc w)))"
proof (induction rows arbitrary: acc w)
  case Nil
  then show ?case by simp
next
  case (Cons c rows)
  obtain o1 w1 where u: "update_competitor_summary E (fst c) (snd c) w = (o1, w1)"
    by (cases "update_competitor_summary E (fst c) (snd c) w")
  with orchestrator_same_but_summary [of w E "fst c" "snd c"]
  have step: "list_all2 same_but_summary (competitors w) (competitors w1)" by simp
  show ?case
  proof (cases o1)
    case (Inl e)
    with u have "update_loop E (c # rows) acc w = update_loop E rows acc w1" by simp
    with step Cons.IH [of w1 acc] show ?thesis
      by (auto intro: same_but_summary_table_trans)
  next
    case (Inr x)
    with u have "update_loop E (c # rows) acc w = update_loop E rows (acc @ [x]) w1" by simp
    with step Cons.IH [of w1 "acc @ [x]"] show ?thesis
      by (auto intro: same_but_summary_table_trans)
  qed
qed

lemma single_same_but_summary:
  "list_all2 same_but_summary (competitors w)
     (competitors (snd (update_single_competitor E i w)))"
proof (cases "store_raises E (store_calls_made w)")
  case (Some m)
  then show ?thesis
    by (simp add: update_single_competitor_def update_single_try_def select_by_id_raises)
next
  case None
  let ?w1 = "w\<lparr>calls := calls w @ [Select_by_id i]\<rparr>"
  show ?thesis
  proof (cases "filter (\<lambda>r. row_id r = i) (competitors w)")
    case Nil
    with None show ?thesis
      by (simp add: update_single_competitor_def update_single_try_def select_by_id_runs)
  next
    case (Cons r rs)
    with None have "snd (update_single_competitor E i w)
        = snd (update_competitor_summary E i (competitor_name r) ?w1)"
      by (simp add: update_single_competitor_def update_single_try_def select_by_id_runs
          split: prod.splits sum.splits)
    with orchestrator_same_but_summary [of ?w1 E i "competitor_name r"]
    show ?thesis by simp
  qed
qed

lemma all_same_but_summary:
  "list_all2 same_but_summary (competitors w)
     (competitors (snd (update_all_competitors E w)))"
proof (cases "store_raises E (store_calls_made w)")
  case (Some m)
  then show ?thesis
    by (simp add: update_all_competitors_def select_null_summary_raises)
next
  case None
  let ?w1 = "w\<lparr>calls := calls w @ [Select_null_summary]\<rparr>"
  from None obtain rows where sel: "select_null_summary E w = (Inr rows, ?w1)"
    by (simp add: select_null_summary_runs)
  show ?thesis
  proof (cases "rows = []")
    case True
    with sel show ?thesis by (simp add: update_all_competitors_def)
  next
    case False
    with sel have "snd (update_all_competitors E w) = snd (update_loop E rows [] ?w1)"
      by (simp add: update_all_competitors_def split: prod.splits)
    with update_loop_same_but_summary [of ?w1 E rows "[]"] show ?thesis by simp
  qed
qed

lemma orchestrator_calls:
  "\<exists>new. calls (snd (update_competitor_summary E i name w)) = calls w @ new
     \<and> length (filter is_update new) \<le> 1
     \<and> (\<forall>c\<in>set new. is_update c \<longrightarrow> (\<exists>s. c = Update_summary s i))"
proof (cases rule: update_competitor_summary_cases [of E name w i])
  case (generation_failed e)
  then have "calls (snd (update_competitor_summary E i name w))
      = calls w @ [Completion ''gpt-4'' (messages name)]" by simp
  then show ?thesis by (intro exI [of _ "[Completion ''gpt-4'' (messages name)]"]) simp
next
  case (store_raised s m)
  then have "calls (snd (update_competitor_summary E i name w))
      = calls w @ [Completion ''gpt-4'' (messages name), Update_summary s i]" by simp
  then show ?thesis
    by (intro exI [of _ "[Completion ''gpt-4'' (messages name), Update_summary s i]"]) simp
next
  case (no_row s)
  then have "calls (snd (update_competitor_summary E i name w))
      = calls w @ [Completion ''gpt-4'' (messages name), Update_summary s i]" by simp
  then show ?thesis
    by (intro exI [of _ "[Completion ''gpt-4'' (messages name), Update_summary s i]"]) simp
next
  case (written s r)
  then have "calls (snd (update_competitor_summary E i name w))
      = calls w @ [Completion ''gpt-4'' (messages name), Update_summary s i]" by simp
  then show ?thesis
    by (intro exI [of _ "[Completion ''gpt-4'' (messages name), Update_summary s i]"]) simp
qed

text \<open>
  C7. The only call that writes to the store is the update of \<open>update_competitor_summary\<close>.
  One run of it issues at most one update, and that update is for the given id. After
  the run the table has the same rows in the same places, each with the \<open>id\<close>, the name and
  the other columns it had; a row with another id is exactly what it was, and when the
  ids of the table are distinct at most one row differs from before. Both endpoints that
  write leave every column but \<open>program_summary\<close> of every row as it was. The store is
  modelled as applying an update in one step.
\<close>

theorem writes_set_only_the_summary:
  "list_all2 same_but_summary (competitors w)
     (competitors (snd (update_competitor_summary E i name w)))
   \<and> list_all2 (untouched_unless i) (competitors w)
       (competitors (snd (update_competitor_summary E i name w)))
   \<and> (distinct (map row_id (competitors w)) \<longrightarrow>
        length (filter (\<lambda>(r, r'). r' \<noteq> r)
          (zip (competitors w) (competitors (snd (update_competitor_summary E i name w)))))
          \<le> 1)
   \<and> (\<exists>new. calls (snd (update_competitor_summary E i name w)) = calls w @ new
         \<and> length (filter is_update new) \<le> 1
         \<and> (\<forall>c\<in>set new. is_update c \<longrightarrow> (\<exists>s. c = Update_summary s i)))
   \<and> list_all2 same_but_summary (competitors w)
       (competitors (snd (update_single_competitor E i w)))
   \<and> list_all2 same_but_summary (competitors w)
       (competitors (snd (update_all_competitors E w)))"
proof (intro conjI impI)
  show "list_all2 same_but_summary (competitors w)
     (competitors (snd (update_competitor_summary E i name w)))"
    by (rule orchestrator_same_but_summary)
next
  show "list_all2 (untouched_unless i) (competitors w)
       (competitors (snd (update_competitor_summary E i name w)))"
    using orchestrator_table [of E i name w] by (auto simp: set_summary_untouched)
next
  assume d: "distinct (map row_id (competitors w))"
  from orchestrator_table [of E i name w]
  show "length (filter (\<lambda>(r, r'). r' \<noteq> r)
          (zip (competitors w) (competitors (snd (update_competitor_summary E i name w)))))
          \<le> 1"
  proof
    assume "competitors (snd (update_competitor_summary E i name w)) = competitors w"
    then show ?thesis by (simp add: zip_same_conv_map filter_map comp_def)
  next
    assume "\<exists>s. competitors (snd (update_competitor_summary E i name w))
          = map (set_summary s i) (competitors w)"
    then obtain s where "competitors (snd (update_competitor_summary E i name w))
          = map (set_summary s i) (competitors w)" ..
    with changed_rows_match [of "competitors w" s i]
      at_most_one_match [OF d, of i]
    show ?thesis by simp
  qed
next
  show "\<exists>new. calls (snd (update_competitor_summary E i name w)) = calls w @ new
         \<and> length (filter is_update new) \<le> 1
         \<and> (\<forall>c\<in>set new. is_update c \<longrightarrow> (\<exists>s. c = Update_summary s i))"
    by (rule orchestrator_calls)
next
  show "list_all2 same_but_summary (competitors w)
       (competitors (snd (update_single_competitor E i w)))"
    by (rule single_same_but_summary)
next
  show "list_all2 same_but_summary (competitors w)
       (competitors (snd (update_all_competitors E w)))"
    by (rule all_same_but_summary)
qed

theorem writes_set_only_the_summary_witness:
  "distinct (map row_id (competitors example_world))
   \<and> competitors (snd (update_competitor_summary healthy_env 3 (Some ''Initech'') example_world))
       = example_table
           [2 := \<lparr>row_id = 3, competitor_name = Some ''Initech'',
                  program_summary = Some ''Earn points.'', other_columns = []\<rparr>]
   \<and> list_all2 same_but_summary (competitors example_world)
       (competitors (snd (update_competitor_summary healthy_env 3 (Some ''Initech'')
          example_world)))
   \<and> length (filter (\<lambda>(r, r'). r' \<noteq> r)
        (zip (competitors example_world)
          (competitors (snd (update_competitor_summary healthy_env 3 (Some ''Initech'')
             example_world))))) \<le> 1"
  using writes_set_only_the_summary [of example_world healthy_env 3 "Some ''Initech''"]
  by (simp add: run_defs example_defs same_but_summary_def untouched_unless_def)

subsection \<open>The loop of the batch endpoint\<close>

lemma length_row_outcomes [simp]: "length (row_outcomes E rows w) = length rows"
  by (induction rows arbitrary: w) (simp_all split: prod.splits)

lemma successes_append [simp]: "successes (xs @ ys) = successes xs @ successes ys"
  by (induction xs rule: successes.induct) simp_all

lemma update_loop_result:
  "fst (update_loop E rows acc w) = acc @ successes (row_outcomes E rows w)"
proof (induction rows arbitrary: acc w)
  case Nil
  then show ?case by simp
next
  case (Cons c rows)
  obtain o1 w1 where u: "update_competitor_summary E (fst c) (snd c) w = (o1, w1)"
    by (cases "update_competitor_summary E (fst c) (snd c) w")
  show ?case
  proof (cases o1)
    case (Inl e)
    with u Cons.IH [of acc w1] show ?thesis by simp
  next
    case (Inr x)
    with u Cons.IH [of "acc @ [x]" w1] show ?thesis by simp
  qed
qed

lemma update_loop_world:
  "snd (update_loop E rows acc w) = snd (update_loop E rows [] w)"
proof (induction rows arbitrary: acc w)
  case Nil
  then show ?case by simp
next
  case (Cons c rows)
  obtain o1 w1 where u: "update_competitor_summary E (fst c) (snd c) w = (o1, w1)"
    by (cases "update_competitor_summary E (fst c) (snd c) w")
  show ?case
  proof (cases o1)
    case (Inl e)
    with u Cons.IH [of acc w1] show ?thesis by simp
  next
    case (Inr x)
    with u Cons.IH [of "acc @ [x]" w1] Cons.IH [of "[x]" w1] show ?thesis by simp
  qed
qed

lemma update_loop_step:
  "update_competitor_summary E (fst c) (snd c) w = (o1, w1) \<Longrightarrow>
   snd (update_loop E (c # rows) acc w) = snd (update_loop E rows [] w1)"
  using update_loop_world [of E rows _ w1] by (cases o1) simp_all

text \<open>
  C9. Whenever \<open>POST /update-all\<close> answers with the fields \<open>status\<close>,
  \<open>total_processed\<close> and \<open>updated_competitors\<close>, the status is "success",
  \<open>total_processed\<close> is the length of \<open>updated_competitors\<close>, and \<open>updated_competitors\<close> holds
  the records of exactly the listed rows whose \<open>update_competitor_summary\<close> returned, in the
  order the rows were processed.
\<close>

theorem batch_reports_the_successes:
  assumes "update_all_competitors E w = (OK (Batch st n ups), w2)"
  shows "st = ''success'' \<and> n = length ups
    \<and> (\<exists>rows w1. select_null_summary E w = (Inr rows, w1) \<and> rows \<noteq> []
          \<and> ups = successes (row_outcomes E rows w1))"
proof -
  obtain r1 w1 where sel: "select_null_summary E w = (r1, w1)"
    by (cases "select_null_summary E w")
  show ?thesis
  proof (cases r1)
    case (Inl e)
    with sel assms show ?thesis by (simp add: update_all_competitors_def)
  next
    case (Inr rows)
    show ?thesis
    proof (cases "rows = []")
      case True
      with sel Inr assms show ?thesis by (simp add: update_all_competitors_def)
    next
      case False
      with sel Inr assms
      have "st = ''success''" "n = length ups" "ups = fst (update_loop E rows [] w1)"
        by (auto simp: update_all_competitors_def split: prod.splits)
      with sel Inr False update_loop_result [of E rows "[]" w1] show ?thesis by simp
    qed
  qed
qed

theorem batch_reports_the_successes_witness:
  "fst (update_all_competitors second_completion_fails_env example_world) =
     OK (Batch ''success'' 2
       [\<lparr>response_id = 1, response_name = ''Acme'',
          response_summary = Some ''Earn points.''\<rparr>,
        \<lparr>response_id = 4, response_name = ''Hooli'',
          response_summary = Some ''Earn points.''\<rparr>])
   \<and> successes (row_outcomes second_completion_fails_env
         [(1, Some ''Acme''), (3, Some ''Initech''), (4, Some ''Hooli'')]
         (example_world\<lparr>calls := [Select_null_summary]\<rparr>)) =
       [\<lparr>response_id = 1, response_name = ''Acme'',
          response_summary = Some ''Earn points.''\<rparr>,
        \<lparr>response_id = 4, response_name = ''Hooli'',
          response_summary = Some ''Earn points.''\<rparr>]"
proof -
  have h: "update_all_competitors second_completion_fails_env example_world =
     (OK (Batch ''success'' 2
       [\<lparr>response_id = 1, response_name = ''Acme'',
          response_summary = Some ''Earn points.''\<rparr>,
        \<lparr>response_id = 4, response_name = ''Hooli'',
          response_summary = Some ''Earn points.''\<rparr>]),
      snd (update_all_competitors second_completion_fails_env example_world))"
    by (simp add: run_defs example_defs)
  from batch_reports_the_successes [OF h] h show ?thesis
    by (simp add: run_defs example_defs)
qed

lemma orchestrator_row_calls:
  "\<exists>cs. calls (snd (update_competitor_summary E i name w)) = calls w @ cs
     \<and> row_calls (i, name) cs"
proof (cases rule: update_competitor_summary_cases [of E name w i])
  case (generation_failed e)
  then show ?thesis
    by (intro exI [of _ "[Completion ''gpt-4'' (messages name)]"]) (simp add: row_calls_def)
next
  case (store_raised s m)
  then show ?thesis
    by (intro exI [of _ "[Completion ''gpt-4'' (messages name), Update_summary s i]"])
      (simp add: row_calls_def)
next
  case (no_row s)
  then show ?thesis
    by (intro exI [of _ "[Completion ''gpt-4'' (messages name), Update_summary s i]"])
      (simp add: row_calls_def)
next
  case (written s r)
  then show ?thesis
    by (intro exI [of _ "[Completion ''gpt-4'' (messages name), Update_summary s i]"])
      (simp add: row_calls_def)
qed

lemma update_loop_calls:
  "\<exists>segs. calls (snd (update_loop E rows acc w)) = calls w @ concat segs
     \<and> list_all2 row_calls rows segs"
proof (induction rows arbitrary: acc w)
  case Nil
  then show ?case by simp
next
  case (Cons c rows)
  obtain o1 w1 where u: "update_competitor_summary E (fst c) (snd c) w = (o1, w1)"
    by (cases "update_competitor_summary E (fst c) (snd c) w")
  from orchestrator_row_calls [of E "fst c" "snd c" w] u
  obtain cs where cs: "calls w1 = calls w @ cs" "row_calls c cs" by auto
  from Cons.IH [of "[]" w1]
  obtain segs where segs: "calls (snd (update_loop E rows [] w1)) = calls w1 @ concat segs"
      "list_all2 row_calls rows segs" by blast
  from u have "snd (update_loop E (c # rows) acc w) = snd (update_loop E rows [] w1)"
    by (rule update_loop_step)
  with cs segs have "calls (snd (update_loop E (c # rows) acc w)) = calls w @ concat (cs # segs)"
    "list_all2 row_calls (c # rows) (cs # segs)" by simp_all
  then show ?case by blast
qed

text \<open>
  C8. The calls \<open>POST /update-all\<close> makes are the listing followed by one block of calls
  for each listed row, the blocks in the order of the listing: the completion call for
  the row's name, then the update for the row's id if a summary was generated. So the
  calls of a row are all made before the first call of the next row, and no two rows
  are worked on at once.
\<close>

theorem batch_rows_one_after_the_other:
  assumes "select_null_summary E w = (Inr rows, w1)"
  shows "\<exists>segs. calls (snd (update_all_competitors E w))
            = calls w @ Select_null_summary # concat segs
     \<and> list_all2 row_calls rows segs"
proof -
  from assms have w1: "calls w1 = calls w @ [Select_null_summary]"
    by (cases "store_raises E (store_calls_made w)")
      (auto simp: select_null_summary_raises select_null_summary_runs)
  show ?thesis
  proof (cases "rows = []")
    case True
    with assms w1 have "calls (snd (update_all_competitors E w))
            = calls w @ Select_null_summary # concat []" "list_all2 row_calls rows []"
      by (simp_all add: update_all_competitors_def)
    then show ?thesis by blast
  next
    case False
    with assms have "snd (update_all_competitors E w) = snd (update_loop E rows [] w1)"
      by (simp add: update_all_competitors_def split: prod.splits)
    with update_loop_calls [of E rows "[]" w1] w1 show ?thesis by simp
  qed
qed

theorem batch_rows_one_after_the_other_witness:
  "calls (snd (update_all_competitors second_completion_fails_env example_world)) =
     [Select_null_summary,
      Completion ''gpt-4'' (messages (Some ''Acme'')), Update_summary ''Earn points.'' 1,
      Completion ''gpt-4'' (messages (Some ''Initech'')),
      Completion ''gpt-4'' (messages (Some ''Hooli'')), Update_summary ''Earn points.'' 4]"
proof -
  have h: "select_null_summary second_completion_fails_env example_world =
     (Inr [(1, Some ''Acme''), (3, Some ''Initech''), (4, Some ''Hooli'')],
      example_world\<lparr>calls := [Select_null_summary]\<rparr>)"
    by (simp add: run_defs example_defs)
  from batch_rows_one_after_the_other [OF h] show ?thesis
    by (simp add: run_defs example_defs)
qed

subsection \<open>One failing row in a batch\<close>

lemma keeps_summary_refl [simp]: "keeps_summary r r"
  by (cases "program_summary r") (simp_all add: keeps_summary_def)

lemma keeps_summary_table_refl [simp]: "list_all2 keeps_summary t t"
  by (simp add: list_all2_refl)




















end
